theory Spec2Isabelle
  imports Complex_Main "HOL-Library.Sublist"
begin

section \<open>JavaScript strings\<close>

abbreviation dquote :: char where "dquote \<equiv> CHR 0x22"

text \<open>\<open>s.startsWith(p)\<close>.\<close>

definition startsWith :: "string \<Rightarrow> string \<Rightarrow> bool" where
  "startsWith s p = prefix p s"

text \<open>
  \<open>s.substring(a, b)\<close> on non-negative indices: both are clamped to the length and
  swapped when \<open>a > b\<close>. \<open>s.substring(a)\<close> runs to the end of the string.
\<close>

definition substring :: "string \<Rightarrow> nat \<Rightarrow> nat \<Rightarrow> string" where
  "substring s a b =
     (let a' = min a (length s); b' = min b (length s)
      in take (max a' b' - min a' b') (drop (min a' b') s))"

definition substring_from :: "string \<Rightarrow> nat \<Rightarrow> string" where
  "substring_from s a = substring s a (length s)"

text \<open>
  \<open>s.includes(p)\<close>: \<open>p\<close> occurs in \<open>s\<close> as a contiguous run of code units. (The name
  \<open>includes\<close> is a keyword of Isabelle, hence \<open>str_includes\<close>.)
\<close>

fun str_includes :: "string \<Rightarrow> string \<Rightarrow> bool" where
  "str_includes [] p = (p = [])"
| "str_includes (c # cs) p = (prefix p (c # cs) \<or> str_includes cs p)"


section \<open>Frame decoder\<close>

text \<open>
  \<open>JSON.parse\<close> is a parameter \<open>parse\<close>: \<open>None\<close> is the thrown \<open>SyntaxError\<close>, which
  both decoders catch.

  The body of the \<open>for (const line of lines)\<close> loop of \<open>BackendClient.streamQuery\<close>
  (backendClient.ts): the value yielded for one line, \<open>None\<close> when the line yields nothing.
\<close>

definition streamQuery_line :: "(string \<Rightarrow> 'a option) \<Rightarrow> string \<Rightarrow> 'a option" where
  "streamQuery_line parse line =
     (if startsWith line ''data: '' then
        (let jsonData = substring_from line 6 in
         if length jsonData > 0 \<and> jsonData \<noteq> ''[DONE]'' then
           (case parse jsonData of Some parsed \<Rightarrow> Some parsed | None \<Rightarrow> None)
         else None)
      else None)"

text \<open>
  \<open>SSEParser.parseSSELine\<close> (implementation plan, 18.2): the result \<open>{type, data}\<close> is a
  record, \<open>null\<close> is \<open>None\<close>.
\<close>

record 'a SSEEvent =
  event_type :: string
  event_data :: 'a

definition parseSSELine :: "(string \<Rightarrow> 'a option) \<Rightarrow> string \<Rightarrow> 'a SSEEvent option" where
  "parseSSELine parse line =
     (if startsWith line ''data: '' then
        (let jsonData = substring_from line 7 in
         if length jsonData > 0 \<and> jsonData \<noteq> ''[DONE]'' then
           (case parse jsonData of
              Some d \<Rightarrow> Some \<lparr>event_type = ''EVENT'', event_data = d\<rparr>
            | None \<Rightarrow> None)
         else None)
      else None)"

section \<open>Incremental field extractor\<close>

text \<open>
  The white-space class of a JavaScript regular expression, on code units below 256: tab,
  line feed, vertical tab, form feed, carriage return, space and no-break space.
\<close>

definition is_space :: "char \<Rightarrow> bool" where
  "is_space c = (of_char c \<in> {9, 10, 11, 12, 13, 32, 160 :: nat})"

text \<open>
  \<open>endMarkerPattern\<close> matched at the start of a string. The pattern is: any white space,
  a double quote, any white space, a comma, any white space, and the word \<open>instructions\<close>
  between double quotes. Each white-space star is greedy and is followed by a character that
  is not white space, so it takes the whole run of white space and backtracking never
  helps. \<open>instructions_literal\<close> is the last part of the pattern, the word with its two
  quotes.
\<close>

definition instructions_literal :: string where
  "instructions_literal = dquote # ''instructions'' @ [dquote]"

definition endMarkerPattern_at :: "string \<Rightarrow> bool" where
  "endMarkerPattern_at s =
     (case dropWhile is_space s of
        [] \<Rightarrow> False
      | c # r1 \<Rightarrow> c = dquote \<and>
          (case dropWhile is_space r1 of
             [] \<Rightarrow> False
           | d # r2 \<Rightarrow> d = CHR '','' \<and>
               prefix instructions_literal (dropWhile is_space r2)))"

text \<open>
  The strings that the pattern matches in full, written out: white space, a quote, white
  space, a comma, white space, and the literal. It states what \<open>endMarkerPattern_at\<close>
  computes (\<open>endMarkerPattern_at_iff\<close> below).
\<close>

definition endMarker_match :: "string \<Rightarrow> bool" where
  "endMarker_match m \<longleftrightarrow>
     (\<exists>w1 w2 w3. list_all is_space w1 \<and> list_all is_space w2 \<and> list_all is_space w3 \<and>
        m = w1 @ dquote # w2 @ CHR '','' # w3 @ instructions_literal)"

text \<open>
  \<open>accumulated.match(endMarkerPattern)\<close>: the index of the leftmost match, \<open>None\<close> for
  \<open>null\<close>.
\<close>

fun match_index :: "string \<Rightarrow> nat option" where
  "match_index [] = (if endMarkerPattern_at [] then Some 0 else None)"
| "match_index (c # cs) =
     (if endMarkerPattern_at (c # cs) then Some 0 else map_option Suc (match_index cs))"

definition BUFFER_SIZE :: nat where
  "BUFFER_SIZE = 20"

record StreamContent =
  content :: string
  endReached :: bool

text \<open>\<open>extractStreamContent\<close> (implementation plan, 18.1). It never reads \<open>currentStreamed\<close>.\<close>

definition extractStreamContent :: "string \<Rightarrow> string \<Rightarrow> StreamContent" where
  "extractStreamContent accumulated currentStreamed =
     (case match_index accumulated of
        Some index \<Rightarrow> \<lparr>content = substring accumulated 0 index, endReached = True\<rparr>
      | None \<Rightarrow>
          if length accumulated > BUFFER_SIZE then
            \<lparr>content = substring accumulated 0 (length accumulated - BUFFER_SIZE),
             endReached = False\<rparr>
          else \<lparr>content = [], endReached = False\<rparr>)"

section \<open>Escape normalizer\<close>


section \<open>Automation decision engine\<close>

record AutomationSettings =
  auto_accept_edits :: bool
  auto_accept_console :: bool
  auto_accept_terminal :: bool
  auto_run_files :: bool
  auto_delete_files :: bool
  auto_accept_console_allow_anything :: bool
  auto_accept_terminal_allow_anything :: bool
  auto_run_files_allow_anything :: bool
  auto_accept_console_allow_list :: "string list"
  auto_accept_console_deny_list :: "string list"
  auto_accept_terminal_allow_list :: "string list"
  auto_accept_terminal_deny_list :: "string list"
  auto_run_files_allow_list :: "string list"
  auto_run_files_deny_list :: "string list"

definition defaultSettings :: AutomationSettings where
  "defaultSettings =
     \<lparr>auto_accept_edits = False, auto_accept_console = False,
      auto_accept_terminal = False, auto_run_files = False, auto_delete_files = False,
      auto_accept_console_allow_anything = False,
      auto_accept_terminal_allow_anything = False,
      auto_run_files_allow_anything = False,
      auto_accept_console_allow_list = [], auto_accept_console_deny_list = [],
      auto_accept_terminal_allow_list = [], auto_accept_terminal_deny_list = [],
      auto_run_files_allow_list = [], auto_run_files_deny_list = []\<rparr>"

text \<open>
  \<open>SettingsManager.getAutomationSettings\<close>: the argument is what the global state holds
  under the automation key, \<open>None\<close> when nothing was stored.
\<close>

definition getAutomationSettings :: "AutomationSettings option \<Rightarrow> AutomationSettings" where
  "getAutomationSettings globalState =
     (case globalState of Some stored \<Rightarrow> stored | None \<Rightarrow> defaultSettings)"

definition matchesPattern :: "string \<Rightarrow> string \<Rightarrow> bool" where
  "matchesPattern item pattern = (str_includes item pattern \<or> str_includes pattern item)"

definition isInAllowList :: "string \<Rightarrow> string list \<Rightarrow> bool" where
  "isInAllowList item allowList = list_ex (\<lambda>pattern. matchesPattern item pattern) allowList"

definition isInDenyList :: "string \<Rightarrow> string list \<Rightarrow> bool" where
  "isInDenyList item denyList = list_ex (\<lambda>pattern. matchesPattern item pattern) denyList"

definition canAutoAcceptTerminalCommand :: "AutomationSettings option \<Rightarrow> string \<Rightarrow> bool" where
  "canAutoAcceptTerminalCommand globalState command =
     (let settings = getAutomationSettings globalState in
      if \<not> auto_accept_terminal settings then False
      else if auto_accept_terminal_allow_anything settings then
        \<not> isInDenyList command (auto_accept_terminal_deny_list settings)
      else isInAllowList command (auto_accept_terminal_allow_list settings))"

section \<open>Error classifier\<close>

text \<open>
  The caught \<open>error\<close> has type \<open>any\<close>. A JavaScript value is \<open>undefined\<close>, \<open>null\<close>, a
  boolean, a number, a string or an object (arrays, functions and \<open>Error\<close> instances are
  objects); an object is the list of its properties.
\<close>

datatype jsnum = Finite real | NaN | Infinity bool

datatype jsval =
    JUndefined
  | JNull
  | JBool bool
  | JNum jsnum
  | JStr string
  | JObj "(string \<times> jsval) list"

text \<open>\<open>ToBoolean\<close>, which \<open>if (v)\<close> applies.\<close>

fun truthy :: "jsval \<Rightarrow> bool" where
  "truthy JUndefined = False"
| "truthy JNull = False"
| "truthy (JBool b) = b"
| "truthy (JNum (Finite x)) = (x \<noteq> 0)"
| "truthy (JNum NaN) = False"
| "truthy (JNum (Infinity neg)) = True"
| "truthy (JStr s) = (s \<noteq> [])"
| "truthy (JObj ps) = True"

text \<open>
  \<open>v?.k\<close>: \<open>undefined\<close> on \<open>undefined\<close> and \<open>null\<close>, the property otherwise; a property
  that is absent, and any of the two properties read here on a primitive value, is
  \<open>undefined\<close>.
\<close>

fun opt_get :: "jsval \<Rightarrow> string \<Rightarrow> jsval" where
  "opt_get (JObj ps) k = (case map_of ps k of Some v \<Rightarrow> v | None \<Rightarrow> JUndefined)"
| "opt_get v k = JUndefined"

text \<open>The constant of \<open>types.ts\<close> (unnamed part 0), the same list as in the plan, 18.6.\<close>

definition NON_RETRYABLE_ERROR_TYPES :: "string list" where
  "NON_RETRYABLE_ERROR_TYPES =
     [''SUBSCRIPTION_LIMIT_REACHED'',
      ''TRIAL_EXPIRED'',
      ''PAYMENT_ACTION_REQUIRED'',
      ''USAGE_BILLING_REQUIRED'',
      ''USAGE_BILLING_LIMIT_REACHED'',
      ''SUBSCRIPTION_EXPIRED'',
      ''SUBSCRIPTION_PAYMENT_FAILED'',
      ''OVERAGE_PAYMENT_FAILED'',
      ''AUTHENTICATION_ERROR'']"

text \<open>
  \<open>xs.includes(v)\<close> on an array of strings: the comparison is SameValueZero, under which
  a string element equals \<open>v\<close> only when \<open>v\<close> is the same string.
\<close>

definition array_includes :: "string list \<Rightarrow> jsval \<Rightarrow> bool" where
  "array_includes xs v = list_ex (\<lambda>x. JStr x = v) xs"

text \<open>\<open>BackendClient.isRetryableError\<close> (backendClient.ts).\<close>

definition isRetryableError :: "jsval \<Rightarrow> bool" where
  "isRetryableError error =
     (if truthy (opt_get (opt_get error ''error'') ''error_type'') then
        \<not> array_includes NON_RETRYABLE_ERROR_TYPES
            (opt_get (opt_get error ''error'') ''error_type'')
      else True)"

section \<open>Message identifiers\<close>








section \<open>UI sequence manager\<close>

text \<open>
  \<open>UISequenceManager\<close> (implementation plan, 18.7): the \<open>Map\<close> from conversation id to
  counter. \<open>get(k) || 0\<close> is 0 when the key is absent and when the stored number is 0.
\<close>

record UISequenceManager =
  sequenceCounters :: "int \<rightharpoonup> nat"

definition new_UISequenceManager :: UISequenceManager where
  "new_UISequenceManager = \<lparr>sequenceCounters = Map.empty\<rparr>"

definition getNextSequence :: "int \<Rightarrow> UISequenceManager \<Rightarrow> nat \<times> UISequenceManager" where
  "getNextSequence conversationId this =
     (let current = (case sequenceCounters this conversationId of
                       None \<Rightarrow> 0
                     | Some v \<Rightarrow> if v = 0 then 0 else v);
          next = current + 1
      in (next, this\<lparr>sequenceCounters := (sequenceCounters this)(conversationId \<mapsto> next)\<rparr>))"

text \<open>A run of calls, one conversation id per call: the values returned, in order.\<close>

fun getNextSequences :: "int list \<Rightarrow> UISequenceManager \<Rightarrow> nat list \<times> UISequenceManager" where
  "getNextSequences [] this = ([], this)"
| "getNextSequences (c # cs) this =
     (let (n, this1) = getNextSequence c this;
          (ns, this2) = getNextSequences cs this1
      in (n # ns, this2))"

section \<open>Button state tracker\<close>

text \<open>\<open>ButtonState\<close> and \<open>ButtonStateManager.markButtonAsRun\<close> (implementation plan, 18.10).\<close>

record ButtonState =
  message_id :: int
  buttons_run :: "string list"
  next_button :: "string option"
  on_deck_button :: "string option"

record ButtonStateManager =
  buttonStates :: "int \<rightharpoonup> ButtonState"

definition markButtonAsRun :: "int \<Rightarrow> string \<Rightarrow> ButtonStateManager \<Rightarrow> ButtonStateManager" where
  "markButtonAsRun messageId buttonType this =
     (let state = (case buttonStates this messageId of
                     Some st \<Rightarrow> st
                   | None \<Rightarrow> \<lparr>message_id = messageId, buttons_run = [],
                               next_button = None, on_deck_button = None\<rparr>);
          state' = (if buttonType \<notin> set (buttons_run state)
                    then state\<lparr>buttons_run := buttons_run state @ [buttonType]\<rparr>
                    else state)
      in this\<lparr>buttonStates := (buttonStates this)(messageId \<mapsto> state')\<rparr>)"

section \<open>Properties of the frame decoders\<close>

lemma substring_from_drop: "substring_from s a = drop a s"
  by (simp add: substring_from_def substring_def Let_def min_def max_def)

lemma streamQuery_line_data:
  "streamQuery_line parse (''data: '' @ rest) =
     (if rest \<noteq> [] \<and> rest \<noteq> ''[DONE]'' then parse rest else None)"
  by (cases "parse rest")
    (simp_all add: streamQuery_line_def startsWith_def substring_from_drop)

lemma parseSSELine_data:
  "parseSSELine parse (''data: '' @ c # rest) =
     (if rest \<noteq> [] \<and> rest \<noteq> ''[DONE]''
      then map_option (\<lambda>d. \<lparr>event_type = ''EVENT'', event_data = d\<rparr>) (parse rest)
      else None)"
  by (cases "parse rest")
    (simp_all add: parseSSELine_def startsWith_def substring_from_drop)

text \<open>
  C1. The claim is that for every line the two decoders produce the same payload, each
  stripping exactly the length of the prefix \<open>data: \<close>. The prefix has 6 characters;
  \<open>streamQuery\<close> strips 6 and \<open>parseSSELine\<close> strips 7. On the line \<open>data: 7\<close> the first
  hands \<open>7\<close> to the JSON decoder and yields its result, the second is left with the empty
  string and returns \<open>null\<close>; on \<open>data: {}\<close> the first decodes \<open>{}\<close> and the second is
  handed \<open>}\<close>. So the two decoders do not agree. The last two lines of the statement put
  \<open>Some\<close> in the place of the JSON decoder, which shows the text each decoder hands to it.
\<close>

theorem parseSSELine_strips_one_more:
  "length ''data: '' = 6
   \<and> streamQuery_line parse ''data: 7'' = parse ''7''
   \<and> parseSSELine parse ''data: 7'' = None
   \<and> streamQuery_line parse ''data: {}'' = parse ''{}''
   \<and> parseSSELine parse ''data: {}''
       = map_option (\<lambda>d. \<lparr>event_type = ''EVENT'', event_data = d\<rparr>) (parse ''}'')
   \<and> streamQuery_line Some ''data: {}'' = Some ''{}''
   \<and> map_option event_data (parseSSELine Some ''data: {}'') = Some ''}''"
  using streamQuery_line_data [of parse "''7''"] parseSSELine_data [of parse "CHR ''7''" "[]"]
    streamQuery_line_data [of parse "''{}''"] parseSSELine_data [of parse "CHR ''{''" "''}''"]
    streamQuery_line_data [of Some "''{}''"] parseSSELine_data [of Some "CHR ''{''" "''}''"]
  by simp

section \<open>Properties of the incremental field extractor\<close>

subsection \<open>The end marker\<close>

lemma not_space_dquote: "\<not> is_space dquote"
  by (simp add: is_space_def)

lemma not_space_comma: "\<not> is_space (CHR '','')"
  by (simp add: is_space_def)

lemma dropWhile_spaces:
  "list_all is_space w \<Longrightarrow> \<not> is_space c \<Longrightarrow> dropWhile is_space (w @ c # r) = c # r"
  by (induction w) simp_all

lemma takeWhile_spaces: "list_all is_space (takeWhile is_space s)"
  by (auto simp: list_all_iff dest: set_takeWhileD)

lemma endMarkerPattern_at_imp:
  assumes a: "endMarkerPattern_at s"
  shows "\<exists>m r. s = m @ r \<and> endMarker_match m"
proof -
  define w1 where "w1 = takeWhile is_space s"
  from a obtain r1 where r1: "dropWhile is_space s = dquote # r1"
    unfolding endMarkerPattern_at_def by (cases "dropWhile is_space s") auto
  define w2 where "w2 = takeWhile is_space r1"
  from a r1 obtain r2 where r2: "dropWhile is_space r1 = CHR '','' # r2"
    unfolding endMarkerPattern_at_def by (cases "dropWhile is_space r1") auto
  define w3 where "w3 = takeWhile is_space r2"
  from a r1 r2 have "prefix instructions_literal (dropWhile is_space r2)"
    unfolding endMarkerPattern_at_def by simp
  then obtain r where r: "dropWhile is_space r2 = instructions_literal @ r"
    unfolding prefix_def by blast
  have s: "s = w1 @ dquote # r1"
    unfolding w1_def using r1 takeWhile_dropWhile_id [of is_space s] by simp
  have r1': "r1 = w2 @ CHR '','' # r2"
    unfolding w2_def using r2 takeWhile_dropWhile_id [of is_space r1] by simp
  have r2': "r2 = w3 @ instructions_literal @ r"
    unfolding w3_def using r takeWhile_dropWhile_id [of is_space r2] by simp
  have w: "list_all is_space w1" "list_all is_space w2" "list_all is_space w3"
    unfolding w1_def w2_def w3_def by (rule takeWhile_spaces)+
  have "s = (w1 @ dquote # w2 @ CHR '','' # w3 @ instructions_literal) @ r"
    unfolding s r1' r2' by simp
  moreover have "endMarker_match (w1 @ dquote # w2 @ CHR '','' # w3 @ instructions_literal)"
    unfolding endMarker_match_def
    using w by (intro exI [of _ w1] exI [of _ w2] exI [of _ w3]) simp
  ultimately show ?thesis by blast
qed

lemma endMarkerPattern_at_match:
  assumes "endMarker_match m"
  shows "endMarkerPattern_at (m @ r)"
proof -
  from assms obtain w1 w2 w3 where w: "list_all is_space w1" "list_all is_space w2"
      "list_all is_space w3"
    and m: "m = w1 @ dquote # w2 @ CHR '','' # w3 @ instructions_literal"
    unfolding endMarker_match_def by blast
  have 1: "dropWhile is_space (m @ r) = dquote # (w2 @ CHR '','' # w3 @ instructions_literal @ r)"
    unfolding m using dropWhile_spaces [OF w(1) not_space_dquote] by simp
  have 2: "dropWhile is_space (w2 @ CHR '','' # w3 @ instructions_literal @ r)
     = CHR '','' # (w3 @ instructions_literal @ r)"
    using dropWhile_spaces [OF w(2) not_space_comma] by simp
  have 3: "dropWhile is_space (w3 @ instructions_literal @ r) = instructions_literal @ r"
    using dropWhile_spaces [OF w(3) not_space_dquote, of "''instructions'' @ [dquote] @ r"]
    by (simp add: instructions_literal_def)
  show ?thesis
    unfolding endMarkerPattern_at_def 1 by (simp add: 2 3)
qed

text \<open>The matcher accepts a string exactly when the string starts with a match.\<close>

lemma endMarkerPattern_at_iff:
  "endMarkerPattern_at s \<longleftrightarrow> (\<exists>m r. s = m @ r \<and> endMarker_match m)"
  using endMarkerPattern_at_imp endMarkerPattern_at_match by blast

lemma match_index_None_iff:
  "match_index s = None \<longleftrightarrow> (\<forall>i \<le> length s. \<not> endMarkerPattern_at (drop i s))"
proof (induction s)
  case Nil
  then show ?case by simp
next
  case (Cons c cs)
  have "(\<forall>i \<le> length (c # cs). \<not> endMarkerPattern_at (drop i (c # cs)))
      \<longleftrightarrow> \<not> endMarkerPattern_at (c # cs)
          \<and> (\<forall>i \<le> length cs. \<not> endMarkerPattern_at (drop i cs))"
    (is "?L \<longleftrightarrow> ?R")
  proof
    assume l: ?L
    have "\<not> endMarkerPattern_at (drop i cs)" if "i \<le> length cs" for i
      using l [rule_format, of "Suc i"] that by simp
    moreover have "\<not> endMarkerPattern_at (c # cs)"
      using l [rule_format, of 0] by simp
    ultimately show ?R by blast
  next
    assume r: ?R
    show ?L
    proof (intro allI impI)
      fix i assume "i \<le> length (c # cs)"
      with r show "\<not> endMarkerPattern_at (drop i (c # cs))"
        by (cases i) simp_all
    qed
  qed
  with Cons show ?case by simp
qed


text \<open>
  \<open>match\<close> returns \<open>null\<close> exactly when the accumulated string does not contain the end
  marker, that is, when no part of it is a match of the pattern.
\<close>

lemma match_index_None_contains:
  "match_index s = None \<longleftrightarrow> \<not> (\<exists>p m r. s = p @ m @ r \<and> endMarker_match m)"
proof -
  have "(\<exists>i \<le> length s. endMarkerPattern_at (drop i s))
     \<longleftrightarrow> (\<exists>p m r. s = p @ m @ r \<and> endMarker_match m)"
  proof
    assume "\<exists>i \<le> length s. endMarkerPattern_at (drop i s)"
    then obtain i m r where "drop i s = m @ r" "endMarker_match m"
      by (auto simp: endMarkerPattern_at_iff)
    then have "s = take i s @ m @ r \<and> endMarker_match m"
      by (metis append_take_drop_id)
    then show "\<exists>p m r. s = p @ m @ r \<and> endMarker_match m" by blast
  next
    assume "\<exists>p m r. s = p @ m @ r \<and> endMarker_match m"
    then obtain p m r where "s = p @ m @ r" "endMarker_match m" by blast
    then have "length p \<le> length s \<and> endMarkerPattern_at (drop (length p) s)"
      by (simp add: endMarkerPattern_at_match)
    then show "\<exists>i \<le> length s. endMarkerPattern_at (drop i s)" by blast
  qed
  then show ?thesis unfolding match_index_None_iff by blast
qed

subsection \<open>A match stays the leftmost match when the string grows\<close>






subsection \<open>The extractor\<close>

lemma substring_0: "substring s 0 n = take n s"
  by (simp add: substring_def Let_def min_def max_def)



text \<open>
  C4. When the accumulated string does not contain the end marker (\<open>match\<close> returns
  \<open>null\<close>, see \<open>match_index_None_contains\<close>): with at most 20 characters the result is the
  empty content and \<open>endReached = false\<close>; with more than 20 characters it is the
  accumulated string without its last 20 characters and \<open>endReached = false\<close>.
\<close>

theorem extractStreamContent_no_marker:
  assumes "match_index accumulated = None"
  shows "extractStreamContent accumulated currentStreamed =
     (if length accumulated \<le> 20 then \<lparr>content = [], endReached = False\<rparr>
      else \<lparr>content = take (length accumulated - 20) accumulated, endReached = False\<rparr>)"
  using assms by (simp add: extractStreamContent_def BUFFER_SIZE_def substring_0)

theorem extractStreamContent_no_marker_witness:
  "match_index ''Hello, world'' = None
   \<and> extractStreamContent ''Hello, world'' [] = \<lparr>content = [], endReached = False\<rparr>
   \<and> match_index ''Hello, world! How are you'' = None
   \<and> extractStreamContent ''Hello, world! How are you'' []
       = \<lparr>content = ''Hello'', endReached = False\<rparr>"
proof -
  have 1: "match_index ''Hello, world'' = None"
    by (simp add: endMarkerPattern_at_def is_space_def)
  have 2: "match_index ''Hello, world! How are you'' = None"
    by (simp add: endMarkerPattern_at_def is_space_def)
  show ?thesis
    using 1 2 extractStreamContent_no_marker [OF 1, of "[]"]
      extractStreamContent_no_marker [OF 2, of "[]"]
    by simp
qed




text \<open>
  The amended statement says nothing about the call at which the end marker is found for
  the first time, and it cannot: the pattern starts with any white space, so white space
  before the closing quote belongs to the marker, and when there are more than 20 such
  characters an earlier call has already returned some of them.
\<close>

lemma extractStreamContent_shrinks_example:
  "content (extractStreamContent (''abc'' @ replicate 30 (CHR '' '')) [])
     = ''abc'' @ replicate 10 (CHR '' '')
   \<and> content (extractStreamContent
        (''abc'' @ replicate 30 (CHR '' '') @ dquote # '','' @ instructions_literal) [])
     = ''abc''"
  by (simp add: extractStreamContent_def BUFFER_SIZE_def substring_def
      endMarkerPattern_at_def is_space_def instructions_literal_def eval_nat_numeral)

section \<open>Properties of the escape normalizer\<close>












section \<open>Properties of the automation decision engine\<close>

lemma str_includes_sublist: "str_includes s p \<longleftrightarrow> sublist p s"
proof (induction s)
  case Nil
  then show ?case by simp
next
  case (Cons c cs)
  then show ?case by (simp add: sublist_Cons_right)
qed

lemma str_includes_Nil: "str_includes s []"
  by (cases s) simp_all

lemma isInAllowList_iff:
  "isInAllowList item xs \<longleftrightarrow> (\<exists>p \<in> set xs. sublist p item \<or> sublist item p)"
  by (auto simp: isInAllowList_def matchesPattern_def list_ex_iff str_includes_sublist)

lemma isInDenyList_iff:
  "isInDenyList item xs \<longleftrightarrow> (\<exists>p \<in> set xs. sublist p item \<or> sublist item p)"
  by (auto simp: isInDenyList_def matchesPattern_def list_ex_iff str_includes_sublist)

lemma allow_ls_la: "isInAllowList ''ls -la'' [''ls'', ''pwd'']"
  by (simp add: isInAllowList_def matchesPattern_def)

lemma allow_rm_rf: "\<not> isInAllowList ''rm -rf /'' [''ls'', ''pwd'']"
  by (simp add: isInAllowList_def matchesPattern_def)

text \<open>
  C5. With \<open>auto_accept_terminal\<close> on and \<open>auto_accept_terminal_allow_anything\<close> off,
  \<open>canAutoAcceptTerminalCommand\<close> is true exactly when some entry of the allow list is a
  substring of the command or the command is a substring of that entry; with the allow list
  of \<open>ls\<close> and \<open>pwd\<close> it accepts \<open>ls -la\<close> and refuses \<open>rm -rf /\<close>.
\<close>

theorem canAutoAcceptTerminalCommand_allow_list:
  assumes "auto_accept_terminal (getAutomationSettings globalState)"
    and "\<not> auto_accept_terminal_allow_anything (getAutomationSettings globalState)"
  shows "(canAutoAcceptTerminalCommand globalState command \<longleftrightarrow>
            (\<exists>entry \<in> set (auto_accept_terminal_allow_list (getAutomationSettings globalState)).
               sublist entry command \<or> sublist command entry))
         \<and> (auto_accept_terminal_allow_list (getAutomationSettings globalState) = [''ls'', ''pwd'']
              \<longrightarrow> canAutoAcceptTerminalCommand globalState ''ls -la''
                  \<and> \<not> canAutoAcceptTerminalCommand globalState ''rm -rf /'')"
  using assms allow_ls_la allow_rm_rf
  by (simp add: canAutoAcceptTerminalCommand_def Let_def isInAllowList_iff)

theorem canAutoAcceptTerminalCommand_allow_list_witness:
  "canAutoAcceptTerminalCommand
     (Some (defaultSettings\<lparr>auto_accept_terminal := True,
                            auto_accept_terminal_allow_list := [''ls'', ''pwd'']\<rparr>)) ''ls -la''
   \<and> \<not> canAutoAcceptTerminalCommand
     (Some (defaultSettings\<lparr>auto_accept_terminal := True,
                            auto_accept_terminal_allow_list := [''ls'', ''pwd'']\<rparr>)) ''rm -rf /''"
  using canAutoAcceptTerminalCommand_allow_list
    [of "Some (defaultSettings\<lparr>auto_accept_terminal := True,
                                auto_accept_terminal_allow_list := [''ls'', ''pwd'']\<rparr>)"
        "''ls -la''"]
  by (simp add: getAutomationSettings_def defaultSettings_def)

text \<open>
  C6. An empty string in the terminal allow list makes \<open>canAutoAcceptTerminalCommand\<close> true
  for every command when \<open>auto_accept_terminal\<close> is on and
  \<open>auto_accept_terminal_allow_anything\<close> is off; an empty string in the terminal deny list
  makes it false for every command when \<open>auto_accept_terminal_allow_anything\<close> is on.
\<close>

theorem canAutoAcceptTerminalCommand_empty_entry:
  "(auto_accept_terminal (getAutomationSettings globalState)
      \<and> \<not> auto_accept_terminal_allow_anything (getAutomationSettings globalState)
      \<and> [] \<in> set (auto_accept_terminal_allow_list (getAutomationSettings globalState))
     \<longrightarrow> canAutoAcceptTerminalCommand globalState command)
   \<and> (auto_accept_terminal_allow_anything (getAutomationSettings globalState)
      \<and> [] \<in> set (auto_accept_terminal_deny_list (getAutomationSettings globalState))
     \<longrightarrow> \<not> canAutoAcceptTerminalCommand globalState command)"
  by (auto simp: canAutoAcceptTerminalCommand_def Let_def isInAllowList_def isInDenyList_def
      matchesPattern_def list_ex_iff str_includes_Nil intro!: bexI [where x = "[]"])

theorem canAutoAcceptTerminalCommand_empty_entry_witness:
  "canAutoAcceptTerminalCommand
     (Some (defaultSettings\<lparr>auto_accept_terminal := True,
                            auto_accept_terminal_allow_list := [''ls'', []]\<rparr>)) ''rm -rf /''
   \<and> \<not> canAutoAcceptTerminalCommand
     (Some (defaultSettings\<lparr>auto_accept_terminal := True,
                            auto_accept_terminal_allow_anything := True,
                            auto_accept_terminal_deny_list := [[]]\<rparr>)) ''ls''"
  using canAutoAcceptTerminalCommand_empty_entry
    [of "Some (defaultSettings\<lparr>auto_accept_terminal := True,
                                auto_accept_terminal_allow_list := [''ls'', []]\<rparr>)"
        "''rm -rf /''"]
   canAutoAcceptTerminalCommand_empty_entry
    [of "Some (defaultSettings\<lparr>auto_accept_terminal := True,
                                auto_accept_terminal_allow_anything := True,
                                auto_accept_terminal_deny_list := [[]]\<rparr>)"
        "''ls''"]
  by (simp add: getAutomationSettings_def defaultSettings_def)

section \<open>Properties of the error classifier\<close>

lemma array_includes_iff: "array_includes xs v \<longleftrightarrow> (\<exists>s \<in> set xs. v = JStr s)"
  by (auto simp: array_includes_def list_ex_iff)

lemma NON_RETRYABLE_nonempty: "s \<in> set NON_RETRYABLE_ERROR_TYPES \<Longrightarrow> s \<noteq> []"
  by (auto simp: NON_RETRYABLE_ERROR_TYPES_def)

lemma NON_RETRYABLE_nine:
  "length NON_RETRYABLE_ERROR_TYPES = 9 \<and> distinct NON_RETRYABLE_ERROR_TYPES"
  by (simp add: NON_RETRYABLE_ERROR_TYPES_def)

text \<open>
  C7. \<open>isRetryableError\<close> returns false exactly when \<open>error.error.error_type\<close> is a string
  of the terminal set, which has the nine listed elements. An error of kind
  \<open>AUTHENTICATION_ERROR\<close> is not retryable; an error of kind \<open>TIMEOUT\<close>, and an error
  with no kind, is retryable.
\<close>

theorem isRetryableError_iff:
  "(\<not> isRetryableError error \<longleftrightarrow>
      (\<exists>s \<in> set NON_RETRYABLE_ERROR_TYPES.
         opt_get (opt_get error ''error'') ''error_type'' = JStr s))
   \<and> set NON_RETRYABLE_ERROR_TYPES =
       {''SUBSCRIPTION_LIMIT_REACHED'', ''TRIAL_EXPIRED'', ''PAYMENT_ACTION_REQUIRED'',
        ''USAGE_BILLING_REQUIRED'', ''USAGE_BILLING_LIMIT_REACHED'', ''SUBSCRIPTION_EXPIRED'',
        ''SUBSCRIPTION_PAYMENT_FAILED'', ''OVERAGE_PAYMENT_FAILED'', ''AUTHENTICATION_ERROR''}
   \<and> card (set NON_RETRYABLE_ERROR_TYPES) = 9
   \<and> (opt_get (opt_get error ''error'') ''error_type'' = JStr ''AUTHENTICATION_ERROR''
        \<longrightarrow> \<not> isRetryableError error)
   \<and> (opt_get (opt_get error ''error'') ''error_type'' = JStr ''TIMEOUT''
        \<longrightarrow> isRetryableError error)
   \<and> (opt_get (opt_get error ''error'') ''error_type'' = JUndefined
        \<longrightarrow> isRetryableError error)"
proof -
  have a: "\<not> isRetryableError error \<longleftrightarrow>
      (\<exists>s \<in> set NON_RETRYABLE_ERROR_TYPES.
         opt_get (opt_get error ''error'') ''error_type'' = JStr s)"
    by (auto simp: isRetryableError_def array_includes_iff dest: NON_RETRYABLE_nonempty)
  have b: "set NON_RETRYABLE_ERROR_TYPES =
       {''SUBSCRIPTION_LIMIT_REACHED'', ''TRIAL_EXPIRED'', ''PAYMENT_ACTION_REQUIRED'',
        ''USAGE_BILLING_REQUIRED'', ''USAGE_BILLING_LIMIT_REACHED'', ''SUBSCRIPTION_EXPIRED'',
        ''SUBSCRIPTION_PAYMENT_FAILED'', ''OVERAGE_PAYMENT_FAILED'', ''AUTHENTICATION_ERROR''}"
    by (simp add: NON_RETRYABLE_ERROR_TYPES_def)
  have c: "card (set NON_RETRYABLE_ERROR_TYPES) = 9"
    using NON_RETRYABLE_nine by (simp add: distinct_card)
  have d: "opt_get (opt_get error ''error'') ''error_type'' = JStr ''AUTHENTICATION_ERROR''
        \<Longrightarrow> \<not> isRetryableError error"
    unfolding a by (simp add: NON_RETRYABLE_ERROR_TYPES_def)
  have e: "opt_get (opt_get error ''error'') ''error_type'' = JStr ''TIMEOUT''
        \<Longrightarrow> isRetryableError error"
    by (simp add: isRetryableError_def array_includes_def NON_RETRYABLE_ERROR_TYPES_def)
  have f: "opt_get (opt_get error ''error'') ''error_type'' = JUndefined
        \<Longrightarrow> isRetryableError error"
    by (simp add: isRetryableError_def)
  from a b c d e f show ?thesis by blast
qed

theorem isRetryableError_iff_witness:
  "\<not> isRetryableError
       (JObj [(''error'', JObj [(''error_type'', JStr ''AUTHENTICATION_ERROR'')])])
   \<and> isRetryableError (JObj [(''error'', JObj [(''error_type'', JStr ''TIMEOUT'')])])
   \<and> isRetryableError (JObj [(''message'', JStr ''fetch failed'')])"
  using
    isRetryableError_iff
      [of "JObj [(''error'', JObj [(''error_type'', JStr ''AUTHENTICATION_ERROR'')])]"]
    isRetryableError_iff [of "JObj [(''error'', JObj [(''error_type'', JStr ''TIMEOUT'')])]"]
    isRetryableError_iff [of "JObj [(''message'', JStr ''fetch failed'')]"]
  by simp

section \<open>Properties of the message identifiers\<close>











section \<open>Properties of the UI sequence manager\<close>

text \<open>
  The counter of a conversation is the number stored for it, 0 while the map has no entry
  for it.
\<close>

lemma getNextSequence_fst:
  "fst (getNextSequence c this)
     = (case sequenceCounters this c of None \<Rightarrow> 0 | Some v \<Rightarrow> v) + 1"
  by (simp add: getNextSequence_def Let_def split: option.splits)

lemma getNextSequence_snd:
  "(case sequenceCounters (snd (getNextSequence c this)) x of None \<Rightarrow> 0 | Some v \<Rightarrow> v) =
     (if x = c then (case sequenceCounters this c of None \<Rightarrow> 0 | Some v \<Rightarrow> v) + 1
      else (case sequenceCounters this x of None \<Rightarrow> 0 | Some v \<Rightarrow> v))"
  by (simp add: getNextSequence_def Let_def split: option.splits)

lemma getNextSequences_Cons:
  "fst (getNextSequences (c # cs) this) =
     fst (getNextSequence c this) # fst (getNextSequences cs (snd (getNextSequence c this)))"
  by (simp add: split_beta Let_def)

lemma getNextSequences_nth:
  "k < length cs \<Longrightarrow>
   fst (getNextSequences cs this) ! k =
     (case sequenceCounters this (cs ! k) of None \<Rightarrow> 0 | Some v \<Rightarrow> v)
       + count_list (take (Suc k) cs) (cs ! k)"
proof (induction cs arbitrary: this k)
  case Nil
  then show ?case by simp
next
  case (Cons c cs)
  show ?case
  proof (cases k)
    case 0
    then show ?thesis
      by (simp only: getNextSequences_Cons getNextSequence_fst) simp
  next
    case (Suc k')
    with Cons.prems have "k' < length cs" by simp
    from Cons.IH [OF this, of "snd (getNextSequence c this)"] Suc
    show ?thesis
      by (simp only: getNextSequences_Cons) (simp add: getNextSequence_snd)
  qed
qed

text \<open>
  C9. From an empty manager, three calls for conversation 7 return 1, 2, 3. For any run of
  calls \<open>cs\<close> (one conversation id per call, in any interleaving), the call at position
  \<open>k\<close> returns the number of calls made so far, itself included, for its own conversation
  id: the n-th call for a conversation returns n, whatever calls were made for other ids.
\<close>

theorem getNextSequence_nth_call:
  "fst (getNextSequences [7, 7, 7] new_UISequenceManager) = [1, 2, 3]
   \<and> (\<forall>k < length cs.
        fst (getNextSequences cs new_UISequenceManager) ! k
          = count_list (take (Suc k) cs) (cs ! k))"
proof
  show "fst (getNextSequences [7, 7, 7] new_UISequenceManager) = [1, 2, 3]"
    by (simp add: getNextSequence_def new_UISequenceManager_def Let_def)
  show "\<forall>k < length cs.
        fst (getNextSequences cs new_UISequenceManager) ! k
          = count_list (take (Suc k) cs) (cs ! k)"
    by (simp add: getNextSequences_nth new_UISequenceManager_def)
qed

theorem getNextSequence_nth_call_witness:
  "fst (getNextSequences [7, 9, 7, 9, 9] new_UISequenceManager) = [1, 1, 2, 2, 3]
   \<and> count_list (take 4 [7, 9, 7, 9, 9 :: int]) 9 = 2"
  using getNextSequence_nth_call [of "[7, 9, 7, 9, 9]"]
  by (simp add: getNextSequence_def new_UISequenceManager_def Let_def)

section \<open>Properties of the button state tracker\<close>

text \<open>
  C10. After \<open>markButtonAsRun(m, a)\<close> the store has an entry for \<open>m\<close> whose \<open>buttons_run\<close>
  contains \<open>a\<close> (which is what makes the button hidden), and a second
  \<open>markButtonAsRun(m, a)\<close> leaves the store exactly as the first call left it.
\<close>

theorem markButtonAsRun_idempotent:
  "(\<exists>st. buttonStates (markButtonAsRun m a this) m = Some st \<and> a \<in> set (buttons_run st))
   \<and> markButtonAsRun m a (markButtonAsRun m a this) = markButtonAsRun m a this"
  by (auto simp: markButtonAsRun_def Let_def split: option.splits)

theorem markButtonAsRun_idempotent_witness:
  "buttonStates (markButtonAsRun 5 ''accept'' \<lparr>buttonStates = Map.empty\<rparr>) 5
     = Some \<lparr>message_id = 5, buttons_run = [''accept''], next_button = None,
             on_deck_button = None\<rparr>
   \<and> markButtonAsRun 5 ''accept'' (markButtonAsRun 5 ''accept'' \<lparr>buttonStates = Map.empty\<rparr>)
     = markButtonAsRun 5 ''accept'' \<lparr>buttonStates = Map.empty\<rparr>"
  using markButtonAsRun_idempotent [of 5 "''accept''" "\<lparr>buttonStates = Map.empty\<rparr>"]
  by (simp add: markButtonAsRun_def Let_def)

end
